theory Spec2Isabelle
  imports Main
begin

section \<open>The service worker of \<^verbatim>\<open>Sw.js\<close>\<close>

text \<open>
  The worker registers three handlers that touch the cache store: \<^verbatim>\<open>install\<close>,
  \<^verbatim>\<open>activate\<close> and \<^verbatim>\<open>fetch\<close>. Each handler is embedded as a function from the
  cache store (and the environment it runs in) to the store it leaves behind, together
  with the list of platform operations it issued, in the order it issued them. The
  fourth handler, \<^verbatim>\<open>message\<close>, only calls \<^verbatim>\<open>skipWaiting\<close> and is left out.

  A promise is embedded by the value it settles with. The detached writes of the fetch
  handler (\<^verbatim>\<open>caches.open(...).then(cache => cache.put(...))\<close>, whose promise nobody
  awaits) are embedded as carried out: the store returned by the handler is the store
  once the write it scheduled has landed.
\<close>

subsection \<open>Strings and URLs\<close>

text \<open>\<^verbatim>\<open>String.prototype.startsWith\<close> and \<^verbatim>\<open>String.prototype.includes\<close>.\<close>

definition startsWith :: "string \<Rightarrow> string \<Rightarrow> bool" where
  "startsWith s p = (take (length p) s = p)"

fun includes_str :: "string \<Rightarrow> string \<Rightarrow> bool" where
  "includes_str [] p = (p = [])"
| "includes_str (c # cs) p = (startsWith (c # cs) p \<or> includes_str cs p)"

text \<open>
  ASCII lower case, the white space of header values, splitting at a character and
  joining with a separator: what the platform does to header names and to the values
  of a \<open>Vary\<close> header.
\<close>

definition lower_char :: "char \<Rightarrow> char" where
  "lower_char c =
     (case map_of (zip ''ABCDEFGHIJKLMNOPQRSTUVWXYZ'' ''abcdefghijklmnopqrstuvwxyz'') c of
        Some d \<Rightarrow> d
      | None \<Rightarrow> c)"

definition lower :: "string \<Rightarrow> string" where
  "lower s = map lower_char s"

definition is_ws :: "char \<Rightarrow> bool" where
  "is_ws c = (c = CHR '' '' \<or> c = CHR 0x09)"

definition trim :: "string \<Rightarrow> string" where
  "trim s = rev (dropWhile is_ws (rev (dropWhile is_ws s)))"

fun split_on :: "char \<Rightarrow> string \<Rightarrow> string list" where
  "split_on c [] = [[]]"
| "split_on c (x # xs) =
     (if x = c then [] # split_on c xs
      else (case split_on c xs of [] \<Rightarrow> [[x]] | w # ws \<Rightarrow> (x # w) # ws))"

fun join :: "string \<Rightarrow> string list \<Rightarrow> string" where
  "join sep [] = []"
| "join sep [v] = v"
| "join sep (v # w # vs) = v @ sep @ join sep (w # vs)"

type_synonym url = string

text \<open>
  The cache compares URLs without their fragment and stores only requests over
  \<open>http\<close> or \<open>https\<close>.
\<close>

definition strip_fragment :: "url \<Rightarrow> url" where
  "strip_fragment u = takeWhile (\<lambda>c. c \<noteq> CHR ''#'') u"

definition is_http :: "url \<Rightarrow> bool" where
  "is_http u = (startsWith u ''http://'' \<or> startsWith u ''https://'')"

text \<open>
  \<^verbatim>\<open>request.url\<close> is a serialised absolute URL, so \<^verbatim>\<open>new URL(request.url).pathname\<close>
  is the stretch of it that starts at the first \<open>/\<close> behind \<open>scheme://authority\<close> and
  ends before the query or the fragment; an empty path reads \<open>/\<close>.
\<close>

fun after_scheme :: "string \<Rightarrow> string" where
  "after_scheme [] = []"
| "after_scheme (c # cs) =
     (if startsWith (c # cs) ''://'' then drop 3 (c # cs) else after_scheme cs)"

definition pathname :: "url \<Rightarrow> string" where
  "pathname u =
     (let rest = dropWhile (\<lambda>c. c \<noteq> CHR ''/'' \<and> c \<noteq> CHR ''?'' \<and> c \<noteq> CHR ''#'') (after_scheme u);
          p = takeWhile (\<lambda>c. c \<noteq> CHR ''?'' \<and> c \<noteq> CHR ''#'') rest
      in if p = [] then ''/'' else p)"

subsection \<open>Requests and responses\<close>

text \<open>
  The fields of \<^verbatim>\<open>Request\<close> and \<^verbatim>\<open>Response\<close> that the worker and the cache read.
  A header list holds one pair per header line. \<^verbatim>\<open>headers.get(name)\<close> compares names
  without regard to case and joins the values of all lines of that name with a comma and
  a space; for an absent name it is \<^verbatim>\<open>null\<close>, here \<open>None\<close>. The field \<open>req_method\<close> is
  \<^verbatim>\<open>request.method\<close>.
\<close>

record request =
  req_method :: string
  url :: url
  mode :: string
  destination :: string
  headers :: "(string \<times> string) list"

record response =
  status :: nat
  statusText :: string
  rtype :: string
  rheaders :: "(string \<times> string) list"
  body :: "string option"

definition header_values :: "(string \<times> string) list \<Rightarrow> string \<Rightarrow> string list" where
  "header_values hs name = map snd (filter (\<lambda>(n, v). lower n = lower name) hs)"

definition get_header :: "(string \<times> string) list \<Rightarrow> string \<Rightarrow> string option" where
  "get_header hs name =
     (case header_values hs name of [] \<Rightarrow> None | v # vs \<Rightarrow> Some (join '', '' (v # vs)))"

definition headers_get :: "request \<Rightarrow> string \<Rightarrow> string option" where
  "headers_get rq name = get_header (headers rq) name"

text \<open>The field values of the response's \<open>Vary\<close> header: split at commas, trimmed.\<close>

definition vary_fields :: "response \<Rightarrow> string list" where
  "vary_fields r =
     concat (map (\<lambda>v. map trim (split_on (CHR '','') v)) (header_values (rheaders r) ''vary''))"

text \<open>\<^verbatim>\<open>new Response(null, { status: 504, statusText: 'Gateway Timeout' })\<close>\<close>

definition gateway_timeout :: response where
  "gateway_timeout =
     \<lparr>status = 504, statusText = ''Gateway Timeout'', rtype = ''default'',
      rheaders = [], body = None\<rparr>"

subsection \<open>The cache store\<close>

text \<open>
  \<^verbatim>\<open>caches\<close> is a list of named caches in creation order, each a list of stored
  request and response pairs in the order they were put.

  A request matches a stored pair when it is a GET, its URL equals the stored request's
  URL (fragments left out), and for every field the stored response's \<open>Vary\<close> header
  names the two requests carry the same value; a field \<open>*\<close> matches nothing.
  \<^verbatim>\<open>cache.match\<close> yields the response of the first pair that matches, and
  \<^verbatim>\<open>caches.match\<close> walks the caches in creation order and yields the first response
  found, \<^verbatim>\<open>undefined\<close> (here \<open>None\<close>) when there is none.

  \<^verbatim>\<open>caches.open\<close> creates a missing cache at the end of the list. \<^verbatim>\<open>cache.put\<close>
  rejects, and stores nothing, when the request is not a GET over \<open>http\<close> or \<open>https\<close>,
  when the response has status 206, or when its \<open>Vary\<close> header lists \<open>*\<close>; otherwise it
  removes the pairs the request matches and adds the new pair at the end. The handlers
  never look at the promise of a put, so a rejected put shows only in the store.
\<close>

type_synonym cache = "(request \<times> response) list"
type_synonym cache_storage = "(string \<times> cache) list"

definition caches_keys :: "cache_storage \<Rightarrow> string list" where
  "caches_keys st = map fst st"

definition request_matches :: "request \<Rightarrow> request \<times> response \<Rightarrow> bool" where
  "request_matches q en =
     (req_method q = ''GET'' \<and>
      strip_fragment (url q) = strip_fragment (url (fst en)) \<and>
      list_all (\<lambda>f. f \<noteq> ''*'' \<and> get_header (headers (fst en)) f = get_header (headers q) f)
        (vary_fields (snd en)))"

definition cache_match :: "cache \<Rightarrow> request \<Rightarrow> response option" where
  "cache_match c q =
     (case filter (request_matches q) c of [] \<Rightarrow> None | en # ens \<Rightarrow> Some (snd en))"

fun caches_match :: "cache_storage \<Rightarrow> request \<Rightarrow> response option" where
  "caches_match [] q = None"
| "caches_match ((n, c) # rest) q =
     (case cache_match c q of Some r \<Rightarrow> Some r | None \<Rightarrow> caches_match rest q)"

definition caches_open :: "string \<Rightarrow> cache_storage \<Rightarrow> cache_storage" where
  "caches_open name st = (if name \<in> set (caches_keys st) then st else st @ [(name, [])])"

definition put_accepts :: "request \<Rightarrow> response \<Rightarrow> bool" where
  "put_accepts rq r =
     (is_http (url rq) \<and> req_method rq = ''GET'' \<and> status r \<noteq> 206 \<and>
      ''*'' \<notin> set (vary_fields r))"

definition store_pair :: "request \<Rightarrow> response \<Rightarrow> cache \<Rightarrow> cache" where
  "store_pair rq r c = filter (\<lambda>en. \<not> request_matches rq en) c @ [(rq, r)]"

definition cache_store :: "string \<Rightarrow> request \<Rightarrow> response \<Rightarrow> cache_storage \<Rightarrow> cache_storage" where
  "cache_store name rq r st =
     map (\<lambda>(n, c). if n = name then (n, store_pair rq r c) else (n, c)) st"

definition cache_put :: "string \<Rightarrow> request \<Rightarrow> response \<Rightarrow> cache_storage \<Rightarrow> cache_storage" where
  "cache_put name rq r st = (if put_accepts rq r then cache_store name rq r st else st)"

definition caches_delete :: "string \<Rightarrow> cache_storage \<Rightarrow> cache_storage" where
  "caches_delete name st = filter (\<lambda>(n, c). n \<noteq> name) st"

text \<open>The answer of one named cache: \<^verbatim>\<open>caches.open(name)\<close> then \<^verbatim>\<open>cache.match\<close>.\<close>

definition cache_lookup :: "cache_storage \<Rightarrow> string \<Rightarrow> request \<Rightarrow> response option" where
  "cache_lookup st name q = (case map_of st name of None \<Rightarrow> None | Some c \<Rightarrow> cache_match c q)"

subsection \<open>Constants of the worker\<close>

definition CACHE_VERSION :: string where
  "CACHE_VERSION = ''v1.0.0''"

definition STATIC_CACHE :: string where
  "STATIC_CACHE = ''static-'' @ CACHE_VERSION"

definition RUNTIME_CACHE :: string where
  "RUNTIME_CACHE = ''runtime-'' @ CACHE_VERSION"

definition STATIC_ASSETS :: "string list" where
  "STATIC_ASSETS =
     [''/'', ''/index.html'', ''/offline.html'', ''/styles/main.css'', ''/scripts/main.js'',
      ''/manifest.json'', ''/icons/icon-192x192.png'', ''/icons/icon-512x512.png'']"

subsection \<open>Environment, operations issued, results\<close>

text \<open>
  The worker runs at an origin, against which the paths it names (\<^verbatim>\<open>'/offline.html'\<close>)
  are resolved, and over a network: \<open>fetch env rq\<close> is the response \<^verbatim>\<open>fetch(rq)\<close>
  resolves with, \<open>None\<close> when it rejects.
\<close>

record env =
  origin :: string
  fetch :: "request \<Rightarrow> response option"

definition resolve :: "env \<Rightarrow> string \<Rightarrow> url" where
  "resolve e path = origin e @ path"

text \<open>
  \<^verbatim>\<open>new Request(path)\<close>, which is also the request \<^verbatim>\<open>caches.match(path)\<close> looks up.
\<close>

definition asset_request :: "env \<Rightarrow> string \<Rightarrow> request" where
  "asset_request e path =
     \<lparr>req_method = ''GET'', url = resolve e path, mode = ''cors'', destination = [], headers = []\<rparr>"

datatype event =
    Fetch request
  | CachesMatch url
  | CachesOpen string
  | CachePut string url response
  | CacheAddAll string "url list"
  | CachesKeys
  | CachesDelete string
  | SkipWaiting
  | ClientsClaim

text \<open>
  What a fetch event ends with: the handler returned without \<^verbatim>\<open>respondWith\<close>, and the
  browser sends the request to the network itself; or the promise given to
  \<^verbatim>\<open>respondWith\<close> settled, with a \<^verbatim>\<open>Response\<close> or with \<^verbatim>\<open>undefined\<close> (\<open>None\<close>).
  No promise the handler builds rejects: each \<^verbatim>\<open>fetch\<close> is followed by a \<^verbatim>\<open>catch\<close>.
  The caller of a request answered with \<^verbatim>\<open>undefined\<close> gets no response: its request
  fails as a network error.
\<close>

datatype outcome = NotIntercepted | RespondWith "response option"

datatype delivery = PassedThrough | Delivered response | NetworkError

fun delivered :: "outcome \<Rightarrow> delivery" where
  "delivered NotIntercepted = PassedThrough"
| "delivered (RespondWith (Some r)) = Delivered r"
| "delivered (RespondWith None) = NetworkError"

text \<open>
  A handler run: what it settled with, the store it leaves, the operations it issued.
\<close>

record 'a handled =
  result :: 'a
  storage :: cache_storage
  trace :: "event list"

subsection \<open>The fetch handler\<close>

definition accepts_html :: "request \<Rightarrow> bool" where
  "accepts_html rq =
     (case headers_get rq ''accept'' of
        None \<Rightarrow> False
      | Some a \<Rightarrow> a \<noteq> [] \<and> includes_str a ''text/html'')"

definition fetch_handler :: "env \<Rightarrow> cache_storage \<Rightarrow> request \<Rightarrow> outcome handled" where
  "fetch_handler e st rq =
     (if req_method rq \<noteq> ''GET'' then
        \<lparr>result = NotIntercepted, storage = st, trace = []\<rparr>
      else if mode rq = ''navigate'' then
        (case fetch e rq of
           Some res \<Rightarrow>
             \<lparr>result = RespondWith (Some res),
              storage = cache_put RUNTIME_CACHE rq res (caches_open RUNTIME_CACHE st),
              trace = [Fetch rq, CachesOpen RUNTIME_CACHE, CachePut RUNTIME_CACHE (url rq) res]\<rparr>
         | None \<Rightarrow>
             (case caches_match st rq of
                Some cached \<Rightarrow>
                  \<lparr>result = RespondWith (Some cached), storage = st,
                   trace = [Fetch rq, CachesMatch (url rq)]\<rparr>
              | None \<Rightarrow>
                  \<lparr>result = RespondWith (caches_match st (asset_request e ''/offline.html'')),
                   storage = st,
                   trace = [Fetch rq, CachesMatch (url rq),
                            CachesMatch (resolve e ''/offline.html'')]\<rparr>))
      else if startsWith (pathname (url rq)) ''/api/'' then
        (case fetch e rq of
           Some res \<Rightarrow>
             \<lparr>result = RespondWith (Some res),
              storage = cache_put RUNTIME_CACHE rq res (caches_open RUNTIME_CACHE st),
              trace = [Fetch rq, CachesOpen RUNTIME_CACHE, CachePut RUNTIME_CACHE (url rq) res]\<rparr>
         | None \<Rightarrow>
             \<lparr>result = RespondWith (caches_match st rq), storage = st,
              trace = [Fetch rq, CachesMatch (url rq)]\<rparr>)
      else
        (case caches_match st rq of
           Some cached \<Rightarrow>
             \<lparr>result = RespondWith (Some cached), storage = st,
              trace = [CachesMatch (url rq)]\<rparr>
         | None \<Rightarrow>
             (case fetch e rq of
                Some res \<Rightarrow>
                  (if status res = 200 \<and> rtype res \<noteq> ''opaque'' then
                     \<lparr>result = RespondWith (Some res),
                      storage = cache_put RUNTIME_CACHE rq res
                                  (caches_open RUNTIME_CACHE st),
                      trace = [CachesMatch (url rq), Fetch rq, CachesOpen RUNTIME_CACHE,
                               CachePut RUNTIME_CACHE (url rq) res]\<rparr>
                   else
                     \<lparr>result = RespondWith (Some res), storage = st,
                      trace = [CachesMatch (url rq), Fetch rq]\<rparr>)
              | None \<Rightarrow>
                  (if destination rq = ''image'' then
                     \<lparr>result = RespondWith (caches_match st (asset_request e ''/icons/icon-192x192.png'')),
                      storage = st,
                      trace = [CachesMatch (url rq), Fetch rq,
                               CachesMatch (resolve e ''/icons/icon-192x192.png'')]\<rparr>
                   else if accepts_html rq then
                     \<lparr>result = RespondWith (caches_match st (asset_request e ''/offline.html'')),
                      storage = st,
                      trace = [CachesMatch (url rq), Fetch rq,
                               CachesMatch (resolve e ''/offline.html'')]\<rparr>
                   else
                     \<lparr>result = RespondWith (Some gateway_timeout), storage = st,
                      trace = [CachesMatch (url rq), Fetch rq]\<rparr>))))"

subsection \<open>The install handler\<close>

text \<open>
  \<^verbatim>\<open>cache.addAll(paths)\<close> fetches \<^verbatim>\<open>new Request(path)\<close> for every path and stores
  the responses together. It rejects, and stores nothing, when a request is not over
  \<open>http\<close> or \<open>https\<close>, when a fetch rejects, or when a response is of type \<open>error\<close>, has a
  status outside 200..299 or the status 206, or lists \<open>*\<close> in its \<open>Vary\<close> header.
\<close>

definition response_ok :: "response \<Rightarrow> bool" where
  "response_ok r = (200 \<le> status r \<and> status r \<le> 299)"

definition addAll_accepts :: "response \<Rightarrow> bool" where
  "addAll_accepts r =
     (rtype r \<noteq> ''error'' \<and> response_ok r \<and> status r \<noteq> 206 \<and> ''*'' \<notin> set (vary_fields r))"

fun addAll :: "env \<Rightarrow> string list \<Rightarrow> (request \<times> response) list option" where
  "addAll e [] = Some []"
| "addAll e (p # ps) =
     (if \<not> is_http (url (asset_request e p)) then None
      else
        (case fetch e (asset_request e p) of
           None \<Rightarrow> None
         | Some r \<Rightarrow>
             if addAll_accepts r then
               (case addAll e ps of
                  None \<Rightarrow> None
                | Some es \<Rightarrow> Some ((asset_request e p, r) # es))
             else None))"

text \<open>
  The result is whether the promise given to \<^verbatim>\<open>waitUntil\<close> fulfilled. \<^verbatim>\<open>caches.open\<close>
  has run before \<^verbatim>\<open>addAll\<close> starts, so a failed install still leaves the static cache
  created.
\<close>

definition install :: "env \<Rightarrow> cache_storage \<Rightarrow> bool handled" where
  "install e st =
     (let st1 = caches_open STATIC_CACHE st;
          ops = [CachesOpen STATIC_CACHE,
                 CacheAddAll STATIC_CACHE (map (resolve e) STATIC_ASSETS)]
      in case addAll e STATIC_ASSETS of
           None \<Rightarrow> \<lparr>result = False, storage = st1, trace = ops\<rparr>
         | Some es \<Rightarrow>
             \<lparr>result = True,
              storage = fold (\<lambda>(rq, r). cache_store STATIC_CACHE rq r) es st1,
              trace = ops @ [SkipWaiting]\<rparr>)"

subsection \<open>The activate handler\<close>

definition stale_keys :: "string list \<Rightarrow> string list" where
  "stale_keys keys = filter (\<lambda>key. key \<noteq> STATIC_CACHE \<and> key \<noteq> RUNTIME_CACHE) keys"

definition activate :: "cache_storage \<Rightarrow> unit handled" where
  "activate st =
     (let keys = caches_keys st
      in \<lparr>result = (),
          storage = fold caches_delete (stale_keys keys) st,
          trace = CachesKeys # map CachesDelete (stale_keys keys) @ [ClientsClaim]\<rparr>)"

subsection \<open>Sample inputs\<close>

text \<open>A site at \<open>https://example.com\<close>, with the network down or answering every request alike.\<close>

definition network_down :: env where
  "network_down = \<lparr>origin = ''https://example.com'', fetch = (\<lambda>rq. None)\<rparr>"

definition network_serving :: "response \<Rightarrow> env" where
  "network_serving r = \<lparr>origin = ''https://example.com'', fetch = (\<lambda>rq. Some r)\<rparr>"

definition offline_page :: response where
  "offline_page =
     \<lparr>status = 200, statusText = ''OK'', rtype = ''basic'',
      rheaders = [(''content-type'', ''text/html'')], body = Some ''<h1>Offline</h1>''\<rparr>"

definition icon_png :: response where
  "icon_png =
     \<lparr>status = 200, statusText = ''OK'', rtype = ''basic'',
      rheaders = [(''content-type'', ''image/png'')], body = Some ''PNG''\<rparr>"

definition fresh_200 :: response where
  "fresh_200 =
     \<lparr>status = 200, statusText = ''OK'', rtype = ''basic'', rheaders = [],
      body = Some ''fresh''\<rparr>"

definition not_found_404 :: response where
  "not_found_404 =
     \<lparr>status = 404, statusText = ''Not Found'', rtype = ''basic'', rheaders = [],
      body = Some ''missing''\<rparr>"

definition opaque_0 :: response where
  "opaque_0 = \<lparr>status = 0, statusText = [], rtype = ''opaque'', rheaders = [], body = None\<rparr>"

definition partial_206 :: response where
  "partial_206 =
     \<lparr>status = 206, statusText = ''Partial Content'', rtype = ''basic'',
      rheaders = [(''content-range'', ''bytes 0-3/10'')], body = Some ''part''\<rparr>"

definition vary_star_200 :: response where
  "vary_star_200 =
     \<lparr>status = 200, statusText = ''OK'', rtype = ''basic'', rheaders = [(''Vary'', ''*'')],
      body = Some ''body''\<rparr>"

definition preloaded :: cache_storage where
  "preloaded =
     [(''static-v1.0.0'',
       [(asset_request network_down ''/offline.html'', offline_page),
        (asset_request network_down ''/icons/icon-192x192.png'', icon_png)])]"

definition upgraded :: cache_storage where
  "upgraded =
     [(''static-v0.9.0'', []), (''runtime-v0.9.0'', []), (''static-v1.0.0'', [])]"

definition api_users :: request where
  "api_users =
     \<lparr>req_method = ''GET'', url = ''https://example.com/api/users'', mode = ''cors'',
      destination = [], headers = [(''accept'', ''application/json'')]\<rparr>"

definition api_items :: request where
  "api_items =
     \<lparr>req_method = ''GET'', url = ''https://example.com/api/items?page=2'', mode = ''cors'',
      destination = [], headers = []\<rparr>"

definition nav_about :: request where
  "nav_about =
     \<lparr>req_method = ''GET'', url = ''https://example.com/about'', mode = ''navigate'',
      destination = ''document'', headers = [(''accept'', ''text/html,application/xhtml+xml'')]\<rparr>"

definition style_css :: request where
  "style_css =
     \<lparr>req_method = ''GET'', url = ''https://example.com/styles/site.css'', mode = ''no-cors'',
      destination = ''style'', headers = [(''accept'', ''text/css,*/*;q=0.1'')]\<rparr>"

definition photo_jpg :: request where
  "photo_jpg =
     \<lparr>req_method = ''GET'', url = ''https://example.com/img/photo.jpg'', mode = ''no-cors'',
      destination = ''image'', headers = [(''accept'', ''image/*'')]\<rparr>"

definition partial_html :: request where
  "partial_html =
     \<lparr>req_method = ''GET'', url = ''https://example.com/partials/menu'', mode = ''cors'',
      destination = [], headers = [(''accept'', ''text/html'')]\<rparr>"

definition post_users :: request where
  "post_users =
     \<lparr>req_method = ''POST'', url = ''https://example.com/api/users'', mode = ''cors'',
      destination = [], headers = [(''content-type'', ''application/json'')]\<rparr>"

section \<open>Properties\<close>

subsection \<open>Facts about the cache store\<close>

lemmas sample_defs =
  network_down_def network_serving_def offline_page_def icon_png_def fresh_200_def
  not_found_404_def opaque_0_def partial_206_def vary_star_200_def preloaded_def upgraded_def
  api_users_def api_items_def nav_about_def style_css_def photo_jpg_def partial_html_def
  post_users_def

lemmas name_defs = STATIC_CACHE_def RUNTIME_CACHE_def CACHE_VERSION_def

lemmas match_defs =
  request_matches_def cache_match_def strip_fragment_def vary_fields_def header_values_def
  get_header_def lower_def lower_char_def trim_def is_ws_def asset_request_def resolve_def

lemma static_ne_runtime: "STATIC_CACHE \<noteq> RUNTIME_CACHE"
  by (simp add: STATIC_CACHE_def RUNTIME_CACHE_def)

lemma map_of_cache_store:
  "map_of (cache_store n rq r st) m =
     (if m = n then map_option (store_pair rq r) (map_of st n) else map_of st m)"
  by (induction st) (auto simp: cache_store_def)

lemma map_of_cache_put_other:
  "m \<noteq> n \<Longrightarrow> map_of (cache_put n rq r st) m = map_of st m"
  by (simp add: cache_put_def map_of_cache_store)

lemma map_of_caches_open:
  "map_of (caches_open n st) m =
     (if m = n \<and> n \<notin> set (caches_keys st) then Some [] else map_of st m)"
proof (cases "n \<in> set (caches_keys st)")
  case True
  then show ?thesis by (simp add: caches_open_def)
next
  case False
  then have "map_of st n = None"
    by (simp add: caches_keys_def map_of_eq_None_iff)
  with False show ?thesis
    by (auto simp: caches_open_def map_add_def split: option.splits)
qed

lemma cache_match_Nil: "cache_match [] q = None"
  by (simp add: cache_match_def)

lemma caches_match_append:
  "caches_match (st @ st') q =
     (case caches_match st q of Some r \<Rightarrow> Some r | None \<Rightarrow> caches_match st' q)"
  by (induction st) (auto split: option.splits)

lemma caches_match_open: "caches_match (caches_open n st) q = caches_match st q"
  by (simp add: caches_open_def caches_match_append cache_match_Nil split: option.splits)

lemma request_matches_self:
  "req_method q = ''GET'' \<Longrightarrow> ''*'' \<notin> set (vary_fields r) \<Longrightarrow> request_matches q (q, r)"
  by (auto simp: request_matches_def list_all_iff)

lemma put_accepts_matches: "put_accepts q r \<Longrightarrow> request_matches q (q, r)"
  by (simp add: put_accepts_def request_matches_self)

lemma cache_match_store_self:
  "request_matches q (q, r) \<Longrightarrow> cache_match (store_pair q r c) q = Some r"
  by (simp add: cache_match_def store_pair_def)

lemma caches_match_store_miss:
  "caches_match st q = None \<Longrightarrow> n \<in> set (caches_keys st) \<Longrightarrow> request_matches q (q, r) \<Longrightarrow>
   caches_match (cache_store n q r st) q = Some r"
proof (induction st)
  case Nil
  then show ?case by (simp add: caches_keys_def)
next
  case (Cons a st)
  obtain m c where a: "a = (m, c)" by (cases a)
  from Cons.prems(1) a have miss: "cache_match c q = None" "caches_match st q = None"
    by (auto split: option.splits)
  show ?case
  proof (cases "m = n")
    case True
    with Cons.prems(3) show ?thesis
      by (simp add: a cache_store_def cache_match_store_self)
  next
    case False
    with Cons.prems(2) a have "n \<in> set (caches_keys st)" by (simp add: caches_keys_def)
    from Cons.IH [OF miss(2) this Cons.prems(3)] False miss(1) show ?thesis
      by (simp add: a cache_store_def)
  qed
qed

lemma open_has_key: "n \<in> set (caches_keys (caches_open n st))"
  by (simp add: caches_open_def caches_keys_def)

lemma keys_caches_delete: "caches_keys (caches_delete n st) = removeAll n (caches_keys st)"
  by (induction st) (auto simp: caches_delete_def caches_keys_def)

lemma keys_fold_delete:
  "set (caches_keys (fold caches_delete ks st)) = set (caches_keys st) - set ks"
  by (induction ks arbitrary: st) (auto simp: keys_caches_delete)

lemma map_of_caches_delete:
  "map_of (caches_delete n st) m = (if m = n then None else map_of st m)"
  by (induction st) (auto simp: caches_delete_def)

lemma map_of_fold_delete:
  "map_of (fold caches_delete ks st) m = (if m \<in> set ks then None else map_of st m)"
  by (induction ks arbitrary: st) (auto simp: map_of_caches_delete)

lemma key_has_cache: "n \<in> set (caches_keys st) \<Longrightarrow> \<exists>c. map_of st n = Some c"
  by (metis caches_keys_def map_of_eq_None_iff not_None_eq set_map)

lemma cache_lookup_store:
  assumes "n \<in> set (caches_keys st)" and "request_matches q (q, r)"
  shows "cache_lookup (cache_store n q r st) n q = Some r"
proof -
  from key_has_cache [OF assms(1)] obtain c where "map_of st n = Some c" ..
  with assms(2) show ?thesis
    by (simp add: cache_lookup_def map_of_cache_store cache_match_store_self)
qed

lemma cache_lookup_put_open:
  "put_accepts q r \<Longrightarrow> cache_lookup (cache_put n q r (caches_open n st)) n q = Some r"
  by (simp add: cache_put_def cache_lookup_store open_has_key put_accepts_matches)

lemma caches_match_same:
  assumes "req_method q' = req_method q" "strip_fragment (url q') = strip_fragment (url q)"
    "headers q' = headers q"
  shows "caches_match st q' = caches_match st q"
proof -
  have "request_matches q' = request_matches q"
    using assms by (simp add: fun_eq_iff request_matches_def)
  then have "cache_match c q' = cache_match c q" for c
    by (simp add: cache_match_def)
  then show ?thesis
    by (induction st) (auto split: option.splits)
qed

subsection \<open>Facts about the preload\<close>

lemma cache_match_store_other:
  assumes "strip_fragment (url q') \<noteq> strip_fragment (url q)"
  shows "cache_match (store_pair q' r' c) q = cache_match c q"
proof -
  have "\<not> request_matches q (q', r')"
    using assms by (auto simp: request_matches_def)
  moreover have "filter (request_matches q) (filter (\<lambda>en. \<not> request_matches q' en) c) =
      filter (request_matches q) c"
    unfolding filter_filter
    by (rule filter_cong) (use assms in \<open>auto simp: request_matches_def\<close>)
  ultimately show ?thesis
    by (simp add: cache_match_def store_pair_def)
qed

lemma fold_store_pair_other:
  "(\<And>q' r'. (q', r') \<in> set es \<Longrightarrow> strip_fragment (url q') \<noteq> strip_fragment (url q)) \<Longrightarrow>
   cache_match (fold (\<lambda>(q', r'). store_pair q' r') es c) q = cache_match c q"
proof (induction es arbitrary: c)
  case Nil
  then show ?case by simp
next
  case (Cons a es)
  obtain q0 r0 where a: "a = (q0, r0)" by (cases a)
  have "cache_match (fold (\<lambda>(q', r'). store_pair q' r') es (store_pair q0 r0 c)) q =
        cache_match (store_pair q0 r0 c) q"
    by (rule Cons.IH) (use Cons.prems in auto)
  also have "\<dots> = cache_match c q"
    by (rule cache_match_store_other) (use Cons.prems a in auto)
  finally show ?case by (simp add: a)
qed

lemma fold_store_pair_member:
  assumes "distinct (map (\<lambda>en. strip_fragment (url (fst en))) es)"
    and "\<And>q' r'. (q', r') \<in> set es \<Longrightarrow> request_matches q' (q', r')"
    and "(q, r) \<in> set es"
  shows "cache_match (fold (\<lambda>(q', r'). store_pair q' r') es c) q = Some r"
  using assms
proof (induction es arbitrary: c)
  case Nil
  then show ?case by simp
next
  case (Cons a es)
  obtain q0 r0 where a: "a = (q0, r0)" by (cases a)
  show ?case
  proof (cases "(q, r) = (q0, r0)")
    case True
    have "cache_match (fold (\<lambda>(q', r'). store_pair q' r') es (store_pair q r c)) q =
          cache_match (store_pair q r c) q"
    proof (rule fold_store_pair_other)
      fix q' r' assume "(q', r') \<in> set es"
      then have "strip_fragment (url q') \<in> (\<lambda>en. strip_fragment (url (fst en))) ` set es"
        by force
      moreover have "strip_fragment (url q) \<notin> (\<lambda>en. strip_fragment (url (fst en))) ` set es"
        using Cons.prems(1) a True by simp
      ultimately show "strip_fragment (url q') \<noteq> strip_fragment (url q)"
        by metis
    qed
    also have "\<dots> = Some r"
      by (rule cache_match_store_self) (use Cons.prems(2) a True in auto)
    finally show ?thesis using a True by simp
  next
    case False
    with Cons.prems(3) a have "(q, r) \<in> set es" by auto
    from Cons.IH [OF _ _ this] Cons.prems(1,2) show ?thesis
      by (simp add: a)
  qed
qed

lemma map_of_fold_store:
  "map_of (fold (\<lambda>(q, r). cache_store n q r) es st) n =
     map_option (fold (\<lambda>(q, r). store_pair q r) es) (map_of st n)"
proof (induction es arbitrary: st)
  case Nil
  then show ?case by (simp add: option.map_ident)
next
  case (Cons a es)
  then show ?case
    by (cases a) (simp add: map_of_cache_store option.map_comp comp_def)
qed

lemma addAll_entries:
  "addAll e ps = Some es \<Longrightarrow>
   map fst es = map (asset_request e) ps \<and>
   (\<forall>(q, r)\<in>set es. fetch e q = Some r \<and> addAll_accepts r)"
proof (induction ps arbitrary: es)
  case Nil
  then show ?case by simp
next
  case (Cons p ps)
  then show ?case
    by (auto split: option.splits if_splits)
qed

lemma strip_fragment_plain: "CHR ''#'' \<notin> set u \<Longrightarrow> strip_fragment u = u"
  by (auto simp: strip_fragment_def takeWhile_eq_all_conv)

lemma asset_urls_distinct:
  assumes "CHR ''#'' \<notin> set (origin e)"
  shows "distinct (map (\<lambda>p. strip_fragment (url (asset_request e p))) STATIC_ASSETS)"
proof -
  have "strip_fragment (url (asset_request e p)) = origin e @ p" if "p \<in> set STATIC_ASSETS" for p
    using that assms
    by (auto simp: asset_request_def resolve_def STATIC_ASSETS_def intro!: strip_fragment_plain)
  then have eq: "map (\<lambda>p. strip_fragment (url (asset_request e p))) STATIC_ASSETS =
             map (\<lambda>p. origin e @ p) STATIC_ASSETS"
    by simp
  have "distinct STATIC_ASSETS"
    by (simp add: STATIC_ASSETS_def)
  then have "distinct (map (\<lambda>p. origin e @ p) STATIC_ASSETS)"
    by (simp add: distinct_map inj_on_def)
  then show ?thesis
    unfolding eq .
qed

lemma install_stores_assets:
  assumes "result (install e st)" and "CHR ''#'' \<notin> set (origin e)" and "p \<in> set STATIC_ASSETS"
  shows "cache_lookup (storage (install e st)) STATIC_CACHE (asset_request e p) =
           fetch e (asset_request e p)"
proof -
  from assms(1) obtain es where es: "addAll e STATIC_ASSETS = Some es"
    by (cases "addAll e STATIC_ASSETS") (auto simp: install_def Let_def)
  note ent = addAll_entries [OF es]
  from ent have fsts: "map fst es = map (asset_request e) STATIC_ASSETS" by simp
  from assms(3) have "asset_request e p \<in> set (map fst es)"
    unfolding fsts by simp
  then obtain r where mem: "(asset_request e p, r) \<in> set es"
    by auto
  with ent have r: "fetch e (asset_request e p) = Some r" by auto
  have dist: "distinct (map (\<lambda>en. strip_fragment (url (fst en))) es)"
  proof -
    have "map (\<lambda>en. strip_fragment (url (fst en))) es =
          map (\<lambda>q. strip_fragment (url q)) (map fst es)"
      by simp
    also have "\<dots> = map (\<lambda>p. strip_fragment (url (asset_request e p))) STATIC_ASSETS"
      by (simp add: fsts comp_def)
    finally show ?thesis
      using asset_urls_distinct [OF assms(2)] by simp
  qed
  have self: "request_matches q' (q', r')" if "(q', r') \<in> set es" for q' r'
  proof -
    from that ent have "addAll_accepts r'" by auto
    moreover from that have "q' \<in> set (map fst es)"
      by force
    then have "q' \<in> set (map (asset_request e) STATIC_ASSETS)"
      unfolding fsts .
    ultimately show ?thesis
      by (auto simp: addAll_accepts_def asset_request_def intro!: request_matches_self)
  qed
  obtain c where c: "map_of (caches_open STATIC_CACHE st) STATIC_CACHE = Some c"
    using key_has_cache [OF open_has_key] by blast
  have "storage (install e st) =
      fold (\<lambda>(q, r). cache_store STATIC_CACHE q r) es (caches_open STATIC_CACHE st)"
    using es by (simp add: install_def Let_def)
  then have "cache_lookup (storage (install e st)) STATIC_CACHE (asset_request e p) =
      cache_match (fold (\<lambda>(q, r). store_pair q r) es c) (asset_request e p)"
    by (simp add: cache_lookup_def map_of_fold_store c)
  also have "\<dots> = Some r"
    by (rule fold_store_pair_member [OF dist self mem])
  finally show ?thesis using r by simp
qed

subsection \<open>The API strategy\<close>

text \<open>
  C1. An API request (a GET that is no navigation and whose path starts with \<open>/api/\<close>)
  on which the network fails and for which no cache holds an entry ends with no response
  at all: the promise given to \<^verbatim>\<open>respondWith\<close> settles with the miss of the lookup, the
  caller's request fails as a network error, and the store is left as it was. Neither the
  synthesized 504 nor the offline document is put in its place, whatever the caches hold
  under other keys.
\<close>

theorem api_failure_propagates:
  "\<lbrakk>req_method rq = ''GET''; mode rq \<noteq> ''navigate'';
    startsWith (pathname (url rq)) ''/api/'';
    fetch e rq = None; caches_match st rq = None\<rbrakk> \<Longrightarrow>
   result (fetch_handler e st rq) = RespondWith None \<and>
   delivered (result (fetch_handler e st rq)) = NetworkError \<and>
   storage (fetch_handler e st rq) = st"
  by (simp add: fetch_handler_def)

theorem api_failure_propagates_witness:
  "req_method api_users = ''GET'' \<and> mode api_users \<noteq> ''navigate'' \<and>
   startsWith (pathname (url api_users)) ''/api/'' \<and>
   fetch network_down api_users = None \<and> caches_match preloaded api_users = None \<and>
   caches_match preloaded (asset_request network_down ''/offline.html'') = Some offline_page \<and>
   result (fetch_handler network_down preloaded api_users) = RespondWith None \<and>
   delivered (result (fetch_handler network_down preloaded api_users)) = NetworkError"
proof -
  have h: "req_method api_users = ''GET''" "mode api_users \<noteq> ''navigate''"
    "startsWith (pathname (url api_users)) ''/api/''"
    "fetch network_down api_users = None" "caches_match preloaded api_users = None"
    by (simp_all add: sample_defs pathname_def startsWith_def match_defs)
  have "caches_match preloaded (asset_request network_down ''/offline.html'') = Some offline_page"
    by (simp add: sample_defs match_defs)
  with h api_failure_propagates [OF h] show ?thesis by simp
qed

subsection \<open>What a request ends with\<close>

text \<open>
  C2, as amended. A request that is not a GET is not intercepted. A GET request ends with
  exactly one settlement of \<^verbatim>\<open>respondWith\<close>, a response or no response at all.

  It is no response exactly when the network failed, no cache holds the request, and the
  fallback lookup of its class missed too: for a navigation \<open>/offline.html\<close> is in no
  cache, for an API request there is no further fallback, for an image the placeholder is
  in no cache, for any other static request the request accepts HTML and \<open>/offline.html\<close>
  is in no cache.

  A response is, for a navigation or an API request, the live network response, or with
  the network failed the stored response of the request, or for a navigation with neither
  the stored offline document; for a static request the stored response of the request,
  or with none stored the live network response, or with the network failed as well the
  stored placeholder (image), the stored offline document (request accepting HTML) or
  else the synthesized 504 without body.
\<close>

theorem fetch_handler_results:
  "(req_method rq \<noteq> ''GET'' \<longrightarrow> result (fetch_handler e st rq) = NotIntercepted) \<and>
   (req_method rq = ''GET'' \<longrightarrow>
      (\<exists>x. result (fetch_handler e st rq) = RespondWith x \<and>
         (x = None \<longleftrightarrow>
            fetch e rq = None \<and> caches_match st rq = None \<and>
            (if mode rq = ''navigate'' then
               caches_match st (asset_request e ''/offline.html'') = None
             else if startsWith (pathname (url rq)) ''/api/'' then True
             else if destination rq = ''image'' then
               caches_match st (asset_request e ''/icons/icon-192x192.png'') = None
             else accepts_html rq \<and>
               caches_match st (asset_request e ''/offline.html'') = None)) \<and>
         (\<forall>r. x = Some r \<longrightarrow>
            (if mode rq = ''navigate'' \<or> startsWith (pathname (url rq)) ''/api/'' then
               fetch e rq = Some r \<or>
               fetch e rq = None \<and> caches_match st rq = Some r \<or>
               mode rq = ''navigate'' \<and> fetch e rq = None \<and> caches_match st rq = None \<and>
                 caches_match st (asset_request e ''/offline.html'') = Some r
             else
               caches_match st rq = Some r \<or>
               caches_match st rq = None \<and> fetch e rq = Some r \<or>
               caches_match st rq = None \<and> fetch e rq = None \<and>
                 (if destination rq = ''image'' then
                    caches_match st (asset_request e ''/icons/icon-192x192.png'') = Some r
                  else if accepts_html rq then
                    caches_match st (asset_request e ''/offline.html'') = Some r
                  else r = gateway_timeout)))))"
proof (intro conjI impI)
  assume "req_method rq \<noteq> ''GET''"
  then show "result (fetch_handler e st rq) = NotIntercepted"
    by (simp add: fetch_handler_def)
next
  assume get: "req_method rq = ''GET''"
  show "\<exists>x. result (fetch_handler e st rq) = RespondWith x \<and>
         (x = None \<longleftrightarrow>
            fetch e rq = None \<and> caches_match st rq = None \<and>
            (if mode rq = ''navigate'' then
               caches_match st (asset_request e ''/offline.html'') = None
             else if startsWith (pathname (url rq)) ''/api/'' then True
             else if destination rq = ''image'' then
               caches_match st (asset_request e ''/icons/icon-192x192.png'') = None
             else accepts_html rq \<and>
               caches_match st (asset_request e ''/offline.html'') = None)) \<and>
         (\<forall>r. x = Some r \<longrightarrow>
            (if mode rq = ''navigate'' \<or> startsWith (pathname (url rq)) ''/api/'' then
               fetch e rq = Some r \<or>
               fetch e rq = None \<and> caches_match st rq = Some r \<or>
               mode rq = ''navigate'' \<and> fetch e rq = None \<and> caches_match st rq = None \<and>
                 caches_match st (asset_request e ''/offline.html'') = Some r
             else
               caches_match st rq = Some r \<or>
               caches_match st rq = None \<and> fetch e rq = Some r \<or>
               caches_match st rq = None \<and> fetch e rq = None \<and>
                 (if destination rq = ''image'' then
                    caches_match st (asset_request e ''/icons/icon-192x192.png'') = Some r
                  else if accepts_html rq then
                    caches_match st (asset_request e ''/offline.html'') = Some r
                  else r = gateway_timeout)))"
  proof (cases "mode rq = ''navigate''")
    case True
    with get show ?thesis
      by (cases "fetch e rq"; cases "caches_match st rq") (simp_all add: fetch_handler_def)
  next
    case nav: False
    show ?thesis
    proof (cases "startsWith (pathname (url rq)) ''/api/''")
      case True
      with get nav show ?thesis
        by (cases "fetch e rq"; cases "caches_match st rq") (simp_all add: fetch_handler_def)
    next
      case False
      with get nav show ?thesis
        by (cases "fetch e rq"; cases "caches_match st rq") (simp_all add: fetch_handler_def)
    qed
  qed
qed

theorem fetch_handler_results_witness:
  "req_method post_users \<noteq> ''GET'' \<and>
   result (fetch_handler network_down preloaded post_users) = NotIntercepted \<and>
   req_method style_css = ''GET'' \<and>
   result (fetch_handler network_down preloaded style_css) = RespondWith (Some gateway_timeout) \<and>
   req_method nav_about = ''GET'' \<and>
   result (fetch_handler network_down [] nav_about) = RespondWith None"
proof -
  have "result (fetch_handler network_down preloaded style_css) =
          RespondWith (Some gateway_timeout)"
    by (simp add: sample_defs fetch_handler_def pathname_def startsWith_def
        accepts_html_def headers_get_def match_defs)
  moreover have "result (fetch_handler network_down [] nav_about) = RespondWith None"
    by (simp add: sample_defs fetch_handler_def)
  moreover have "req_method post_users \<noteq> ''GET''" "req_method style_css = ''GET''"
    "req_method nav_about = ''GET''"
    by (simp_all add: sample_defs)
  ultimately show ?thesis
    using fetch_handler_results [of post_users network_down preloaded] by simp
qed

text \<open>
  The claim as written fails: an API request with the network down and nothing cached is
  a GET request whose caller receives neither a response nor the 504, but a network error.
\<close>

theorem get_without_response_counterexample:
  "req_method api_items = ''GET'' \<and>
   result (fetch_handler network_down [] api_items) = RespondWith None \<and>
   delivered (result (fetch_handler network_down [] api_items)) = NetworkError"
  by (simp add: sample_defs fetch_handler_def pathname_def startsWith_def)

subsection \<open>Activation\<close>

text \<open>
  C3, as amended. Activation enumerates the cache names, deletes every cache whose name is
  neither the current static nor the current runtime name, and creates none: afterwards
  the names in the store are the names that were there before and are one of the two
  current names (a subset of the two, not always both), and the two current caches keep
  their contents.
\<close>

theorem activate_keeps_current:
  "set (caches_keys (storage (activate st))) =
     set (caches_keys st) \<inter> {STATIC_CACHE, RUNTIME_CACHE} \<and>
   map_of (storage (activate st)) STATIC_CACHE = map_of st STATIC_CACHE \<and>
   map_of (storage (activate st)) RUNTIME_CACHE = map_of st RUNTIME_CACHE \<and>
   trace (activate st) =
     CachesKeys #
     map CachesDelete
       (filter (\<lambda>key. key \<noteq> STATIC_CACHE \<and> key \<noteq> RUNTIME_CACHE) (caches_keys st)) @
     [ClientsClaim]"
  by (auto simp add: activate_def Let_def keys_fold_delete map_of_fold_delete stale_keys_def)

theorem activate_keeps_current_witness:
  "set (caches_keys (storage (activate upgraded))) = {STATIC_CACHE} \<and>
   trace (activate upgraded) =
     [CachesKeys, CachesDelete ''static-v0.9.0'', CachesDelete ''runtime-v0.9.0'', ClientsClaim]"
  using activate_keeps_current [of upgraded]
  by (simp add: sample_defs name_defs caches_keys_def)

text \<open>
  The claim as written fails: a store that holds the caches of version 0.9.0 and the
  freshly installed static cache of version 1.0.0 holds, after activation, the static
  cache alone. The runtime cache is created by the first write of the fetch handler.
\<close>

theorem activate_exactly_two_counterexample:
  "set (caches_keys (storage (activate upgraded))) \<noteq> {STATIC_CACHE, RUNTIME_CACHE}"
  by (simp add: sample_defs name_defs activate_def caches_keys_def caches_delete_def
      stale_keys_def)

subsection \<open>The static strategy\<close>

text \<open>
  C4, as amended. A static request (a GET that is no navigation and no API request) that
  misses the caches and is served from the network gets the live response. When that
  response has status 200 and is not opaque, the handler opens the runtime cache and puts
  it. When the store accepts the put (the request is over \<open>http\<close> or \<open>https\<close> and the
  response's \<open>Vary\<close> header does not list \<open>*\<close>), the response is stored: the lookup of
  the request then finds it, and the next static request with the same URL and the same
  headers is answered with it from the cache, without a fetch, whatever the network does.
  When the store rejects the put, nothing is stored and the lookup still finds nothing.
  When the response is opaque or its status is not 200, no put is issued, the store is
  left as it was and the lookup of the request still finds nothing.
\<close>

theorem static_cacheable_stored:
  assumes "req_method rq = ''GET''" "mode rq \<noteq> ''navigate''"
    "\<not> startsWith (pathname (url rq)) ''/api/''"
    "caches_match st rq = None" "fetch e rq = Some res"
  shows "result (fetch_handler e st rq) = RespondWith (Some res) \<and>
    (if status res = 200 \<and> rtype res \<noteq> ''opaque'' then
       trace (fetch_handler e st rq) =
         [CachesMatch (url rq), Fetch rq, CachesOpen RUNTIME_CACHE,
          CachePut RUNTIME_CACHE (url rq) res] \<and>
       (if put_accepts rq res then
          caches_match (storage (fetch_handler e st rq)) rq = Some res \<and>
          (\<forall>e' rq'. req_method rq' = ''GET'' \<and> mode rq' \<noteq> ''navigate'' \<and>
                   \<not> startsWith (pathname (url rq')) ''/api/'' \<and>
                   strip_fragment (url rq') = strip_fragment (url rq) \<and>
                   headers rq' = headers rq \<longrightarrow>
             result (fetch_handler e' (storage (fetch_handler e st rq)) rq') =
               RespondWith (Some res) \<and>
             trace (fetch_handler e' (storage (fetch_handler e st rq)) rq') =
               [CachesMatch (url rq')])
        else
          storage (fetch_handler e st rq) = caches_open RUNTIME_CACHE st \<and>
          caches_match (storage (fetch_handler e st rq)) rq = None)
     else
       trace (fetch_handler e st rq) = [CachesMatch (url rq), Fetch rq] \<and>
       storage (fetch_handler e st rq) = st \<and>
       caches_match (storage (fetch_handler e st rq)) rq = None)"
proof (cases "status res = 200 \<and> rtype res \<noteq> ''opaque''")
  case cacheable: True
  have res: "result (fetch_handler e st rq) = RespondWith (Some res)"
    using assms by (simp add: fetch_handler_def)
  have tr: "trace (fetch_handler e st rq) =
         [CachesMatch (url rq), Fetch rq, CachesOpen RUNTIME_CACHE,
          CachePut RUNTIME_CACHE (url rq) res]"
    using assms cacheable by (simp add: fetch_handler_def)
  have st': "storage (fetch_handler e st rq) =
      cache_put RUNTIME_CACHE rq res (caches_open RUNTIME_CACHE st)"
    using assms cacheable by (simp add: fetch_handler_def)
  show ?thesis
  proof (cases "put_accepts rq res")
    case True
    let ?st' = "cache_store RUNTIME_CACHE rq res (caches_open RUNTIME_CACHE st)"
    have st'': "storage (fetch_handler e st rq) = ?st'"
      using st' True by (simp add: cache_put_def)
    have hit: "caches_match ?st' rq = Some res"
      by (rule caches_match_store_miss)
         (simp_all add: caches_match_open assms(4) open_has_key put_accepts_matches True)
    have again: "result (fetch_handler e' ?st' rq') = RespondWith (Some res) \<and>
          trace (fetch_handler e' ?st' rq') = [CachesMatch (url rq')]"
      if h: "req_method rq' = ''GET'' \<and> mode rq' \<noteq> ''navigate'' \<and>
             \<not> startsWith (pathname (url rq')) ''/api/'' \<and>
             strip_fragment (url rq') = strip_fragment (url rq) \<and>
             headers rq' = headers rq" for e' rq'
    proof -
      from h assms(1) have "caches_match ?st' rq' = caches_match ?st' rq"
        by (intro caches_match_same) simp_all
      with hit h show ?thesis
        by (simp add: fetch_handler_def)
    qed
    from cacheable True res tr hit again show ?thesis
      unfolding st'' by simp
  next
    case False
    then have "storage (fetch_handler e st rq) = caches_open RUNTIME_CACHE st"
      using st' by (simp add: cache_put_def)
    with cacheable False res tr assms(4) show ?thesis
      by (simp add: caches_match_open)
  qed
next
  case False
  with assms show ?thesis
    by (auto simp add: fetch_handler_def)
qed

theorem static_cacheable_stored_witness:
  "req_method style_css = ''GET'' \<and> mode style_css \<noteq> ''navigate'' \<and>
   \<not> startsWith (pathname (url style_css)) ''/api/'' \<and>
   caches_match preloaded style_css = None \<and>
   fetch (network_serving fresh_200) style_css = Some fresh_200 \<and>
   status fresh_200 = 200 \<and> rtype fresh_200 \<noteq> ''opaque'' \<and> put_accepts style_css fresh_200 \<and>
   result (fetch_handler (network_serving fresh_200) preloaded style_css) =
     RespondWith (Some fresh_200) \<and>
   caches_match (storage (fetch_handler (network_serving fresh_200) preloaded style_css))
     style_css = Some fresh_200 \<and>
   result (fetch_handler network_down
            (storage (fetch_handler (network_serving fresh_200) preloaded style_css)) style_css) =
     RespondWith (Some fresh_200)"
proof -
  have h: "req_method style_css = ''GET''" "mode style_css \<noteq> ''navigate''"
    "\<not> startsWith (pathname (url style_css)) ''/api/''"
    "caches_match preloaded style_css = None"
    "fetch (network_serving fresh_200) style_css = Some fresh_200"
    by (simp_all add: sample_defs pathname_def startsWith_def match_defs)
  have ok: "status fresh_200 = 200 \<and> rtype fresh_200 \<noteq> ''opaque''"
    "put_accepts style_css fresh_200"
    by (simp_all add: fresh_200_def style_css_def put_accepts_def is_http_def startsWith_def
        match_defs)
  from static_cacheable_stored [OF h] ok h show ?thesis
    by simp
qed

text \<open>
  The claim as written fails: a stylesheet answered with status 200, not opaque, and the
  header \<open>Vary: *\<close> is handed to the caller, but the put of it is rejected, so the lookup
  of the same request finds nothing afterwards.
\<close>

theorem static_200_not_stored_counterexample:
  "req_method style_css = ''GET'' \<and> mode style_css \<noteq> ''navigate'' \<and>
   \<not> startsWith (pathname (url style_css)) ''/api/'' \<and>
   caches_match preloaded style_css = None \<and>
   fetch (network_serving vary_star_200) style_css = Some vary_star_200 \<and>
   status vary_star_200 = 200 \<and> rtype vary_star_200 \<noteq> ''opaque'' \<and>
   result (fetch_handler (network_serving vary_star_200) preloaded style_css) =
     RespondWith (Some vary_star_200) \<and>
   caches_match (storage (fetch_handler (network_serving vary_star_200) preloaded style_css))
     style_css = None"
  by (simp add: sample_defs fetch_handler_def pathname_def startsWith_def match_defs
      put_accepts_def cache_put_def caches_open_def caches_keys_def name_defs)

text \<open>
  C5. A static request that some cache matches is answered with the stored response;
  the only operation the handler issues is the lookup, so no fetch is made, and the store
  is left as it was.
\<close>

theorem static_hit_no_network:
  "\<lbrakk>req_method rq = ''GET''; mode rq \<noteq> ''navigate'';
    \<not> startsWith (pathname (url rq)) ''/api/'';
    caches_match st rq = Some cached\<rbrakk> \<Longrightarrow>
   result (fetch_handler e st rq) = RespondWith (Some cached) \<and>
   trace (fetch_handler e st rq) = [CachesMatch (url rq)] \<and>
   (\<forall>x. Fetch x \<notin> set (trace (fetch_handler e st rq))) \<and>
   storage (fetch_handler e st rq) = st"
  by (simp add: fetch_handler_def)

theorem static_hit_no_network_witness:
  "req_method photo_jpg = ''GET'' \<and> mode photo_jpg \<noteq> ''navigate'' \<and>
   \<not> startsWith (pathname (url photo_jpg)) ''/api/'' \<and>
   caches_match [(''runtime-v1.0.0'', [(photo_jpg, fresh_200)])] photo_jpg = Some fresh_200 \<and>
   result (fetch_handler (network_serving not_found_404)
            [(''runtime-v1.0.0'', [(photo_jpg, fresh_200)])] photo_jpg) =
     RespondWith (Some fresh_200) \<and>
   trace (fetch_handler (network_serving not_found_404)
            [(''runtime-v1.0.0'', [(photo_jpg, fresh_200)])] photo_jpg) =
     [CachesMatch (url photo_jpg)]"
proof -
  have h: "req_method photo_jpg = ''GET''" "mode photo_jpg \<noteq> ''navigate''"
    "\<not> startsWith (pathname (url photo_jpg)) ''/api/''"
    "caches_match [(''runtime-v1.0.0'', [(photo_jpg, fresh_200)])] photo_jpg = Some fresh_200"
    by (simp_all add: sample_defs pathname_def startsWith_def match_defs)
  from static_hit_no_network [OF h] h show ?thesis
    by simp
qed

text \<open>
  C7. A static request that misses the caches and on which the network fails is answered,
  in this order: when its destination is \<open>image\<close>, with the lookup of the placeholder
  \<open>/icons/icon-192x192.png\<close> in the caches; else when its \<open>accept\<close> header contains
  \<open>text/html\<close>, with the lookup of \<open>/offline.html\<close> in the caches; else with a synthesized
  response of status 504 and no body. A document that the caches hold is thus delivered
  as it is stored.
\<close>

theorem static_failure_fallback:
  "\<lbrakk>req_method rq = ''GET''; mode rq \<noteq> ''navigate'';
    \<not> startsWith (pathname (url rq)) ''/api/'';
    caches_match st rq = None; fetch e rq = None\<rbrakk> \<Longrightarrow>
   result (fetch_handler e st rq) =
     (if destination rq = ''image'' then
        RespondWith (caches_match st (asset_request e ''/icons/icon-192x192.png''))
      else if accepts_html rq then
        RespondWith (caches_match st (asset_request e ''/offline.html''))
      else RespondWith (Some gateway_timeout)) \<and>
   status gateway_timeout = 504 \<and> body gateway_timeout = None"
  by (simp add: fetch_handler_def gateway_timeout_def)

theorem static_failure_fallback_witness:
  "result (fetch_handler network_down preloaded photo_jpg) = RespondWith (Some icon_png) \<and>
   result (fetch_handler network_down preloaded partial_html) =
     RespondWith (Some offline_page) \<and>
   result (fetch_handler network_down preloaded style_css) =
     RespondWith (Some gateway_timeout)"
proof -
  have a: "req_method photo_jpg = ''GET''" "mode photo_jpg \<noteq> ''navigate''"
    "\<not> startsWith (pathname (url photo_jpg)) ''/api/''"
    "caches_match preloaded photo_jpg = None" "fetch network_down photo_jpg = None"
    by (simp_all add: sample_defs pathname_def startsWith_def match_defs)
  have b: "req_method partial_html = ''GET''" "mode partial_html \<noteq> ''navigate''"
    "\<not> startsWith (pathname (url partial_html)) ''/api/''"
    "caches_match preloaded partial_html = None" "fetch network_down partial_html = None"
    by (simp_all add: sample_defs pathname_def startsWith_def match_defs)
  have c: "req_method style_css = ''GET''" "mode style_css \<noteq> ''navigate''"
    "\<not> startsWith (pathname (url style_css)) ''/api/''"
    "caches_match preloaded style_css = None" "fetch network_down style_css = None"
    by (simp_all add: sample_defs pathname_def startsWith_def match_defs)
  have d: "destination photo_jpg = ''image''" "destination partial_html \<noteq> ''image''"
    "destination style_css \<noteq> ''image''" "accepts_html partial_html"
    "\<not> accepts_html style_css"
    "caches_match preloaded (asset_request network_down ''/icons/icon-192x192.png'') =
       Some icon_png"
    "caches_match preloaded (asset_request network_down ''/offline.html'') = Some offline_page"
    by (simp_all add: sample_defs accepts_html_def headers_get_def startsWith_def match_defs)
  from static_failure_fallback [OF a] static_failure_fallback [OF b]
    static_failure_fallback [OF c] d
  show ?thesis by simp
qed

subsection \<open>The navigation strategy\<close>

text \<open>
  C6. A navigation request on which the network fails is answered with the stored
  response of the request when some cache holds one, unchanged; otherwise with the lookup of
  \<open>/offline.html\<close> in the caches, so that the offline document the caches hold is what
  the caller receives.
\<close>

theorem navigation_failure_fallback:
  "\<lbrakk>req_method rq = ''GET''; mode rq = ''navigate''; fetch e rq = None\<rbrakk> \<Longrightarrow>
   result (fetch_handler e st rq) =
     (case caches_match st rq of
        Some cached \<Rightarrow> RespondWith (Some cached)
      | None \<Rightarrow> RespondWith (caches_match st (asset_request e ''/offline.html''))) \<and>
   storage (fetch_handler e st rq) = st"
  by (simp add: fetch_handler_def split: option.splits)

theorem navigation_failure_fallback_witness:
  "result (fetch_handler network_down preloaded nav_about) = RespondWith (Some offline_page) \<and>
   result (fetch_handler network_down
             (preloaded @ [(''runtime-v1.0.0'', [(nav_about, fresh_200)])]) nav_about) =
     RespondWith (Some fresh_200)"
proof -
  have h: "req_method nav_about = ''GET''" "mode nav_about = ''navigate''"
    "fetch network_down nav_about = None"
    by (simp_all add: sample_defs)
  have look: "caches_match preloaded nav_about = None"
    "caches_match preloaded (asset_request network_down ''/offline.html'') = Some offline_page"
    "caches_match (preloaded @ [(''runtime-v1.0.0'', [(nav_about, fresh_200)])]) nav_about =
       Some fresh_200"
    by (simp_all add: sample_defs match_defs)
  from navigation_failure_fallback [OF h, of preloaded]
    navigation_failure_fallback
      [OF h, of "preloaded @ [(''runtime-v1.0.0'', [(nav_about, fresh_200)])]"]
    look
  show ?thesis by simp
qed

subsection \<open>Requests that are not intercepted\<close>

text \<open>
  C8. For a request whose method is not GET the handler returns at once: it issues no
  operation at all (no lookup, no write, no fetch of its own), leaves the store as it was
  and does not call \<^verbatim>\<open>respondWith\<close>, so the browser sends the request to the network
  as it is.
\<close>

theorem non_get_bypasses_cache:
  "req_method rq \<noteq> ''GET'' \<Longrightarrow>
   result (fetch_handler e st rq) = NotIntercepted \<and>
   delivered (result (fetch_handler e st rq)) = PassedThrough \<and>
   storage (fetch_handler e st rq) = st \<and>
   trace (fetch_handler e st rq) = []"
  by (simp add: fetch_handler_def)

theorem non_get_bypasses_cache_witness:
  "req_method post_users \<noteq> ''GET'' \<and>
   result (fetch_handler (network_serving fresh_200) preloaded post_users) = NotIntercepted \<and>
   storage (fetch_handler (network_serving fresh_200) preloaded post_users) = preloaded \<and>
   trace (fetch_handler (network_serving fresh_200) preloaded post_users) = []"
proof -
  have h: "req_method post_users \<noteq> ''GET''"
    by (simp add: sample_defs)
  from non_get_bypasses_cache [OF h] h show ?thesis
    by simp
qed

subsection \<open>Which responses are written, and where\<close>

text \<open>
  C9, as amended. For a navigation and for an API request, every response the network
  gives, whatever its status and type, is handed to the caller, and the handler opens the
  runtime cache and puts the response under the request, with no test of its own in
  between. The response is in the runtime cache afterwards when the store accepts the put,
  that is unless the request is not over \<open>http\<close> or \<open>https\<close>, the status is 206 or the
  \<open>Vary\<close> header lists \<open>*\<close>; a rejected put leaves the opened cache as it was. For a
  static request served from the network a put is issued exactly when the response has
  status 200 and is not opaque, and the store changes only then.
\<close>

theorem network_first_writes_unfiltered:
  "(req_method rq = ''GET'' \<and>
    (mode rq = ''navigate'' \<or> startsWith (pathname (url rq)) ''/api/'') \<and>
    fetch e rq = Some res \<longrightarrow>
      result (fetch_handler e st rq) = RespondWith (Some res) \<and>
      trace (fetch_handler e st rq) =
        [Fetch rq, CachesOpen RUNTIME_CACHE, CachePut RUNTIME_CACHE (url rq) res] \<and>
      (if put_accepts rq res then
         cache_lookup (storage (fetch_handler e st rq)) RUNTIME_CACHE rq = Some res
       else storage (fetch_handler e st rq) = caches_open RUNTIME_CACHE st)) \<and>
   (req_method rq = ''GET'' \<and> mode rq \<noteq> ''navigate'' \<and>
    \<not> startsWith (pathname (url rq)) ''/api/'' \<and>
    caches_match st rq = None \<and> fetch e rq = Some res \<longrightarrow>
      result (fetch_handler e st rq) = RespondWith (Some res) \<and>
      ((\<exists>n k r. CachePut n k r \<in> set (trace (fetch_handler e st rq))) \<longleftrightarrow>
         status res = 200 \<and> rtype res \<noteq> ''opaque'') \<and>
      (storage (fetch_handler e st rq) \<noteq> st \<longrightarrow>
         status res = 200 \<and> rtype res \<noteq> ''opaque''))"
proof -
  have "cache_lookup (cache_put RUNTIME_CACHE rq res (caches_open RUNTIME_CACHE st))
          RUNTIME_CACHE rq = Some res" if "put_accepts rq res"
    using that by (rule cache_lookup_put_open)
  moreover have "cache_put RUNTIME_CACHE rq res (caches_open RUNTIME_CACHE st) =
      caches_open RUNTIME_CACHE st" if "\<not> put_accepts rq res"
    using that by (simp add: cache_put_def)
  ultimately show ?thesis
    by (auto simp add: fetch_handler_def)
qed

theorem network_first_writes_unfiltered_witness:
  "req_method nav_about = ''GET'' \<and> mode nav_about = ''navigate'' \<and>
   fetch (network_serving not_found_404) nav_about = Some not_found_404 \<and>
   status not_found_404 \<noteq> 200 \<and> put_accepts nav_about not_found_404 \<and>
   cache_lookup (storage (fetch_handler (network_serving not_found_404) preloaded nav_about))
     RUNTIME_CACHE nav_about = Some not_found_404 \<and>
   req_method api_users = ''GET'' \<and> startsWith (pathname (url api_users)) ''/api/'' \<and>
   fetch (network_serving opaque_0) api_users = Some opaque_0 \<and>
   rtype opaque_0 = ''opaque'' \<and> put_accepts api_users opaque_0 \<and>
   cache_lookup (storage (fetch_handler (network_serving opaque_0) preloaded api_users))
     RUNTIME_CACHE api_users = Some opaque_0 \<and>
   req_method style_css = ''GET'' \<and> mode style_css \<noteq> ''navigate'' \<and>
   \<not> startsWith (pathname (url style_css)) ''/api/'' \<and>
   caches_match preloaded style_css = None \<and>
   fetch (network_serving not_found_404) style_css = Some not_found_404 \<and>
   storage (fetch_handler (network_serving not_found_404) preloaded style_css) = preloaded"
proof -
  have a: "req_method nav_about = ''GET''" "mode nav_about = ''navigate''"
    "fetch (network_serving not_found_404) nav_about = Some not_found_404"
    "status not_found_404 \<noteq> 200" "put_accepts nav_about not_found_404"
    by (simp_all add: sample_defs put_accepts_def is_http_def startsWith_def match_defs)
  have b: "req_method api_users = ''GET''" "startsWith (pathname (url api_users)) ''/api/''"
    "fetch (network_serving opaque_0) api_users = Some opaque_0" "rtype opaque_0 = ''opaque''"
    "put_accepts api_users opaque_0"
    by (simp_all add: sample_defs pathname_def put_accepts_def is_http_def startsWith_def
        match_defs)
  have c: "req_method style_css = ''GET''" "mode style_css \<noteq> ''navigate''"
    "\<not> startsWith (pathname (url style_css)) ''/api/''"
    "caches_match preloaded style_css = None"
    "fetch (network_serving not_found_404) style_css = Some not_found_404"
    by (simp_all add: sample_defs pathname_def startsWith_def match_defs)
  from a b c
    network_first_writes_unfiltered
      [of nav_about "network_serving not_found_404" not_found_404 preloaded]
    network_first_writes_unfiltered
      [of api_users "network_serving opaque_0" opaque_0 preloaded]
    network_first_writes_unfiltered
      [of style_css "network_serving not_found_404" not_found_404 preloaded]
  show ?thesis by auto
qed

text \<open>
  The claim as written fails: an API request answered with status 206 hands the response
  to the caller and issues the put, but the put is rejected, so the runtime cache does not
  hold the response afterwards.
\<close>

theorem network_first_206_not_written_counterexample:
  "req_method api_users = ''GET'' \<and> mode api_users \<noteq> ''navigate'' \<and>
   startsWith (pathname (url api_users)) ''/api/'' \<and>
   fetch (network_serving partial_206) api_users = Some partial_206 \<and>
   result (fetch_handler (network_serving partial_206) preloaded api_users) =
     RespondWith (Some partial_206) \<and>
   cache_lookup (storage (fetch_handler (network_serving partial_206) preloaded api_users))
     RUNTIME_CACHE api_users = None"
  by (simp add: sample_defs fetch_handler_def pathname_def startsWith_def match_defs
      put_accepts_def cache_put_def caches_open_def caches_keys_def name_defs cache_lookup_def)

text \<open>
  C10. Handling a request leaves the static cache as it was: every put the fetch handler
  issues names the runtime cache, it never issues an \<^verbatim>\<open>addAll\<close>, and the contents of
  the static cache after the handler are its contents before. Activation does not touch
  the static cache either. It is the install handler that fills it: after a successful
  install at an origin (which has no fragment) the static cache answers, for every path of
  the manifest, with the response fetched for it.
\<close>

theorem static_generation_written_by_install_only:
  "map_of (storage (fetch_handler e st rq)) STATIC_CACHE = map_of st STATIC_CACHE \<and>
   (\<forall>n k r. CachePut n k r \<in> set (trace (fetch_handler e st rq)) \<longrightarrow> n = RUNTIME_CACHE) \<and>
   (\<forall>ks. CacheAddAll STATIC_CACHE ks \<notin> set (trace (fetch_handler e st rq))) \<and>
   map_of (storage (activate st)) STATIC_CACHE = map_of st STATIC_CACHE \<and>
   (result (install e st) \<and> CHR ''#'' \<notin> set (origin e) \<longrightarrow>
      (\<forall>p\<in>set STATIC_ASSETS.
         cache_lookup (storage (install e st)) STATIC_CACHE (asset_request e p) =
           fetch e (asset_request e p)))"
proof -
  have "map_of (storage (fetch_handler e st rq)) STATIC_CACHE = map_of st STATIC_CACHE"
    using static_ne_runtime
    by (auto simp: fetch_handler_def map_of_cache_put_other map_of_caches_open
        split: option.splits)
  moreover have
    "\<forall>n k r. CachePut n k r \<in> set (trace (fetch_handler e st rq)) \<longrightarrow> n = RUNTIME_CACHE"
    by (auto simp: fetch_handler_def split: option.splits if_splits)
  moreover have "\<forall>ks. CacheAddAll STATIC_CACHE ks \<notin> set (trace (fetch_handler e st rq))"
    by (auto simp: fetch_handler_def split: option.splits if_splits)
  moreover have "map_of (storage (activate st)) STATIC_CACHE = map_of st STATIC_CACHE"
    by (simp add: activate_def Let_def map_of_fold_delete stale_keys_def)
  ultimately show ?thesis
    by (simp add: install_stores_assets)
qed

theorem static_generation_written_by_install_only_witness:
  "result (install (network_serving fresh_200) []) \<and>
   CHR ''#'' \<notin> set (origin (network_serving fresh_200)) \<and>
   ''/offline.html'' \<in> set STATIC_ASSETS \<and>
   cache_lookup (storage (install (network_serving fresh_200) [])) STATIC_CACHE
     (asset_request (network_serving fresh_200) ''/offline.html'') = Some fresh_200 \<and>
   CachePut RUNTIME_CACHE (url style_css) fresh_200 \<in>
     set (trace (fetch_handler (network_serving fresh_200) preloaded style_css)) \<and>
   map_of (storage (fetch_handler (network_serving fresh_200) preloaded style_css)) STATIC_CACHE =
     map_of preloaded STATIC_CACHE"
proof -
  have ok: "result (install (network_serving fresh_200) [])"
    "CHR ''#'' \<notin> set (origin (network_serving fresh_200))"
    by (simp_all add: sample_defs install_def STATIC_ASSETS_def addAll_accepts_def
        response_ok_def is_http_def startsWith_def Let_def match_defs)
  have mem: "''/offline.html'' \<in> set STATIC_ASSETS"
    by (simp add: STATIC_ASSETS_def)
  have put: "CachePut RUNTIME_CACHE (url style_css) fresh_200 \<in>
     set (trace (fetch_handler (network_serving fresh_200) preloaded style_css))"
    by (simp add: sample_defs fetch_handler_def pathname_def startsWith_def match_defs)
  have "\<forall>p\<in>set STATIC_ASSETS.
      cache_lookup (storage (install (network_serving fresh_200) [])) STATIC_CACHE
        (asset_request (network_serving fresh_200) p) =
      fetch (network_serving fresh_200) (asset_request (network_serving fresh_200) p)"
    using static_generation_written_by_install_only
      [of "network_serving fresh_200" "[]" style_css] ok
    by blast
  from this [rule_format, OF mem] have
    "cache_lookup (storage (install (network_serving fresh_200) [])) STATIC_CACHE
       (asset_request (network_serving fresh_200) ''/offline.html'') = Some fresh_200"
    by (simp add: network_serving_def)
  with ok mem put
    static_generation_written_by_install_only [of "network_serving fresh_200" preloaded style_css]
  show ?thesis by simp
qed

end
